theory Spec2Isabelle
  imports Main
begin

section \<open>Bytes, C strings and machine integers\<close>

text \<open>
  The agent is a C program (\<^verbatim>\<open>clustershell_client.c\<close>). A byte is a \<^typ>\<open>char\<close>; the
  memory a \<^verbatim>\<open>char*\<close> points at is a \<^typ>\<open>char list\<close>, with a terminating NUL understood
  right after the last element of the list. The bytes of the list may themselves contain
  NUL (a buffer filled from a socket does), so the C string stored there is the prefix
  before the first NUL, and that is what \<^verbatim>\<open>strlen\<close>, \<^verbatim>\<open>strcpy\<close>, \<^verbatim>\<open>strcat\<close>, \<^verbatim>\<open>strcmp\<close>, \<^verbatim>\<open>atoi\<close>
  and \<^verbatim>\<open>%s\<close> see. Every \<^verbatim>\<open>malloc\<close> is taken to succeed. The program writes within the
  size it asked for everywhere but in \<^verbatim>\<open>get_header_str\<close>, where the size of the allocation
  is part of the model.
\<close>

abbreviation NUL :: char where
  "NUL \<equiv> CHR 0x00"

abbreviation LF :: char where
  "LF \<equiv> CHR 0x0A"

definition c_str :: "char list \<Rightarrow> char list" where
  "c_str mem = takeWhile (\<lambda>c. c \<noteq> NUL) mem"

definition strlen :: "char list \<Rightarrow> nat" where
  "strlen mem = length (c_str mem)"

text \<open>\<^verbatim>\<open>mem[i]\<close> for \<open>i\<close> up to the position of the understood terminator.\<close>

definition c_at :: "char list \<Rightarrow> nat \<Rightarrow> char" where
  "c_at mem i = (if i < length mem then mem ! i else NUL)"

text \<open>
  \<^verbatim>\<open>int\<close> is 32 bits wide, \<^verbatim>\<open>size_t\<close> and \<^verbatim>\<open>ssize_t\<close> are 64 bits wide (the LP64 model
  of the Linux systems the program is written for). Assigning a wider value to an \<^verbatim>\<open>int\<close>
  keeps its low 32 bits, read as two's complement.
\<close>

definition INT_MAX :: int where
  "INT_MAX = 2147483647"

definition to_int :: "int \<Rightarrow> int" where
  "to_int x = (x + 2147483648) mod 4294967296 - 2147483648"

text \<open>C's \<^verbatim>\<open>/\<close> on \<^verbatim>\<open>int\<close> truncates towards zero.\<close>

definition c_div :: "int \<Rightarrow> int \<Rightarrow> int" where
  "c_div a b = sgn a * sgn b * (\<bar>a\<bar> div \<bar>b\<bar>)"

definition HEADER_SIZE :: int where
  "HEADER_SIZE = 6"

subsection \<open>Decimal digits: \<^verbatim>\<open>%d\<close> and \<^verbatim>\<open>atoi\<close>\<close>

definition digit_char :: "nat \<Rightarrow> char" where
  "digit_char d = ''0123456789'' ! d"

definition isdigit :: "char \<Rightarrow> bool" where
  "isdigit c = (c \<in> set ''0123456789'')"

definition digit_val :: "char \<Rightarrow> int" where
  "digit_val c = of_char c - 48"

definition isspace :: "char \<Rightarrow> bool" where
  "isspace c = (c \<in> set [CHR '' '', CHR 0x09, CHR 0x0A, CHR 0x0B, CHR 0x0C, CHR 0x0D])"

function dec_digits :: "nat \<Rightarrow> string" where
  "dec_digits n = (if n < 10 then [digit_char n] else dec_digits (n div 10) @ [digit_char (n mod 10)])"
  by pat_completeness auto
termination
  by (relation "measure (\<lambda>n. n)") auto

declare dec_digits.simps [simp del]

text \<open>What \<^verbatim>\<open>sprintf\<close> writes for \<^verbatim>\<open>%d\<close>.\<close>

definition printf_d :: "int \<Rightarrow> string" where
  "printf_d i = (if i < 0 then CHR ''-'' # dec_digits (nat (- i)) else dec_digits (nat i))"

fun atoi_digits :: "int \<Rightarrow> char list \<Rightarrow> int" where
  "atoi_digits acc [] = acc"
| "atoi_digits acc (c # cs) =
     (if isdigit c then atoi_digits (acc * 10 + digit_val c) cs else acc)"

text \<open>
  \<^verbatim>\<open>atoi\<close>: leading white space, an optional sign, then decimal digits up to the first
  byte that is not one; 0 when there is no digit. The program only applies it to the five
  bytes after a header's tag, so the value always fits an \<^verbatim>\<open>int\<close>.
\<close>

definition atoi :: "char list \<Rightarrow> int" where
  "atoi mem =
     (case dropWhile isspace (c_str mem) of
        [] \<Rightarrow> 0
      | c # cs \<Rightarrow>
          if c = CHR ''-'' then - atoi_digits 0 cs
          else if c = CHR ''+'' then atoi_digits 0 cs
          else atoi_digits 0 (c # cs))"

section \<open>Processes, signals and the trace of effects\<close>

text \<open>
  \<^verbatim>\<open>main\<close> forks: the parent runs \<^verbatim>\<open>shell_handler\<close>, the child runs
  \<^verbatim>\<open>request_handler\<close>. The global \<^verbatim>\<open>child_pid\<close> holds the result of \<^verbatim>\<open>fork\<close>: the
  child's process id in the parent, 0 in the child.
\<close>

record proc =
  getpid :: int
  getppid :: int
  child_pid :: int

datatype signal = SIGUSR1

text \<open>
  What a process does to the world outside its own memory, in program order. Console
  colours (\<^verbatim>\<open>red\<close>, \<^verbatim>\<open>green\<close>, \<^verbatim>\<open>cyan\<close>, \<^verbatim>\<open>reset\<close>) are left out.
\<close>

datatype event =
    Printf string
  | Perror string
  | Kill int signal
  | SockWrite int "char list"
  | SockClose int
  | Chdir string
  | PipeWrite "char list"
  | PipeClose
  | Dup2Stdin
  | Popen string
  | Pclose

text \<open>
  How a call ends: it returns a value, the process calls \<^verbatim>\<open>exit\<close>, the process performs
  an operation C leaves undefined (a NULL pointer passed to \<^verbatim>\<open>strlen\<close>, a negative
  allocation size, a write past the room of an allocation, signed overflow), or it blocks
  for ever in a system call.
\<close>

datatype 'a outcome = Ret 'a | Exit int | Undefined | Blocked

type_synonym 'a run = "event list \<times> 'a outcome"

definition seq :: "'a run \<Rightarrow> ('a \<Rightarrow> 'b run) \<Rightarrow> 'b run" where
  "seq m f =
     (case m of
        (ev, Ret x) \<Rightarrow> (case f x of (ev', r) \<Rightarrow> (ev @ ev', r))
      | (ev, Exit n) \<Rightarrow> (ev, Exit n)
      | (ev, Undefined) \<Rightarrow> (ev, Undefined)
      | (ev, Blocked) \<Rightarrow> (ev, Blocked))"

text \<open>The handler \<^verbatim>\<open>main\<close> installs for SIGUSR1 before forking: \<^verbatim>\<open>exit(1)\<close>.\<close>

definition sigusr1_handler :: "int \<Rightarrow> unit run" where
  "sigusr1_handler signum = ([], Exit 1)"

section \<open>The operating system around the process\<close>

text \<open>
  What the program cannot decide for itself is a parameter: the bytes found in freshly
  allocated memory, where \<^verbatim>\<open>chdir\<close> leads (from a working directory and a path to the new
  working directory, or \<open>None\<close> when the call fails), what the subprocess started by
  \<^verbatim>\<open>popen\<close> writes to its standard output (from the working directory, the command line
  and the bytes on its standard input; \<open>None\<close> when \<^verbatim>\<open>popen\<close> returns NULL), whether a
  \<^verbatim>\<open>realloc\<close> to a given size succeeds, how many bytes a pipe holds before a writer
  blocks, and how many bytes past the size asked for an allocation can hold (allocators
  round sizes up; a write beyond that room is undefined).
\<close>

record os =
  heap_garbage :: "nat \<Rightarrow> char"
  chdir_result :: "string \<Rightarrow> string \<Rightarrow> string option"
  popen_result :: "string \<Rightarrow> string \<Rightarrow> char list \<Rightarrow> char list option"
  realloc_ok :: "nat \<Rightarrow> bool"
  pipe_capacity :: nat
  malloc_slack :: "nat \<Rightarrow> nat"

definition malloc :: "os \<Rightarrow> nat \<Rightarrow> char list" where
  "malloc sys n = map (heap_garbage sys) [0..<n]"


section \<open>The header of a frame: \<^verbatim>\<open>get_header_str\<close>\<close>

function num_length_loop :: "int \<Rightarrow> int \<Rightarrow> int" where
  "num_length_loop s num_length =
     (if s \<noteq> 0 then num_length_loop (c_div s 10) (num_length + 1) else num_length)"
  by pat_completeness auto
termination
  by (relation "measure (\<lambda>(s, n). nat \<bar>s\<bar>)") (auto simp: c_div_def sgn_if)

declare num_length_loop.simps [simp del]

text \<open>
  Line 175 allocates \<open>num_length + 1 + 1\<close> bytes for \<open>header_str\<close> and line 176 writes the
  tag, the zeroes, the digits and the terminator into it: \<^verbatim>\<open>HEADER_SIZE\<close> + 1 bytes for a tag
  of one byte, whatever \<open>num_length\<close> is. The write stays inside the allocation only if
  the allocator left that much room.
\<close>

definition get_header_str :: "os \<Rightarrow> proc \<Rightarrow> char list \<Rightarrow> int \<Rightarrow> char list run" where
  "get_header_str sys p co sz =
     (let num_length0 = num_length_loop sz 0;
          num_length = (if sz = 0 then 1 else num_length0)
      in if num_length > HEADER_SIZE - 1 then
           ([Printf (''output is too long, exiting.'' @ [LF]),
             Kill (if getpid p = child_pid p then getppid p else child_pid p) SIGUSR1],
            Exit 1)
         else
           (let zeroes = replicate (nat (HEADER_SIZE - num_length - 1)) (CHR ''0'');
                header_str = c_str co @ zeroes @ printf_d sz
            in if length header_str + 1
                    > nat (num_length + 1 + 1) + malloc_slack sys (nat (num_length + 1 + 1))
               then ([], Undefined)
               else ([], Ret header_str)))"

section \<open>Sockets\<close>

text \<open>
  The receiving side of a TCP connection is the queue of what has arrived and not been
  read yet: segments of bytes, and errors. \<^verbatim>\<open>read(fd, buf, count)\<close> fails with -1 on an
  error, returns 0 at the end of the stream, and otherwise moves at most \<open>count\<close> bytes of
  the first segment to the front of \<open>buf\<close>, leaving the rest of the segment in the queue
  and the rest of \<open>buf\<close> as it was.
\<close>

datatype rx = Seg "char list" | RxErr

type_synonym conn = "rx list"

fun sock_read :: "conn \<Rightarrow> nat \<Rightarrow> char list \<Rightarrow> int \<times> char list \<times> conn" where
  "sock_read [] count buf = (0, buf, [])"
| "sock_read (RxErr # q) count buf = (- 1, buf, q)"
| "sock_read (Seg bs # q) count buf =
     (let d = take count bs; r = drop count bs
      in (int (length d), d @ drop (length d) buf, if r = [] then q else Seg r # q))"


text \<open>
  \<^verbatim>\<open>write(fd, msg, count)\<close>: the system either fails (-1) or accepts the first \<open>k\<close> bytes,
  \<open>k\<close> at most \<open>count\<close>; those are the bytes that reach the wire.
\<close>

datatype write_result = WrErr | WrOk nat

fun sock_write :: "write_result \<Rightarrow> int \<Rightarrow> char list \<Rightarrow> event list \<times> int" where
  "sock_write WrErr fd msg = ([], - 1)"
| "sock_write (WrOk k) fd msg = ([SockWrite fd (take k msg)], int (min k (length msg)))"

section \<open>The execution engine: \<^verbatim>\<open>execute_on_current_node\<close>\<close>

text \<open>
  \<^verbatim>\<open>fgets(buf, size, f)\<close> on the bytes the stream still holds: it stores at most
  \<open>size - 1\<close> bytes, stops after a line feed, and returns NULL only when the stream is
  at its end and nothing was stored. The result is the stored bytes and the rest of the
  stream.
\<close>

fun fgets_upto :: "nat \<Rightarrow> char list \<Rightarrow> char list \<times> char list" where
  "fgets_upto 0 s = ([], s)"
| "fgets_upto (Suc n) [] = ([], [])"
| "fgets_upto (Suc n) (c # s) =
     (if c = LF then ([c], s)
      else (case fgets_upto n s of (l, r) \<Rightarrow> (c # l, r)))"

definition fgets :: "nat \<Rightarrow> char list \<Rightarrow> char list \<times> char list" where
  "fgets sz s = fgets_upto (sz - 1) s"

lemma fgets_upto_length: "length (snd (fgets_upto n s)) \<le> length s"
  by (induction n s rule: fgets_upto.induct) (auto split: prod.splits)

lemma fgets_upto_shorter: "s \<noteq> [] \<Longrightarrow> length (snd (fgets_upto (Suc n) s)) < length s"
proof (cases s)
  case Nil
  assume "s \<noteq> []"
  with Nil show ?thesis by simp
next
  case (Cons c t)
  have "length (snd (fgets_upto n t)) \<le> length t"
    by (rule fgets_upto_length)
  with Cons show ?thesis
    by (auto split: prod.splits)
qed

lemma fgets_shorter:
  assumes "1 < sz" and "s \<noteq> []"
  shows "length (snd (fgets sz s)) < length s"
proof -
  from assms(1) obtain n where "sz - 1 = Suc n"
    by (cases "sz - 1") auto
  with assms(2) show ?thesis
    by (simp add: fgets_def fgets_upto_shorter)
qed

text \<open>
  The loop of lines 131 to 143. \<open>stream\<close> is what the subprocess has written and the loop
  has not read yet; \<open>output\<close> is the pointer of the same name (\<open>None\<close> for NULL).
\<close>

function read_output :: "os \<Rightarrow> proc \<Rightarrow> char list \<Rightarrow> char list option \<Rightarrow> int \<Rightarrow> char list option run" where
  "read_output sys p stream output curr_size =
     (if stream = [] then ([], Ret output)
      else
        (let tmp_buffer = fst (fgets 200 stream);
             stream' = snd (fgets 200 stream)
         in if \<not> realloc_ok sys (nat (curr_size + int (strlen tmp_buffer))) then
              ([Printf (''Memory allocation  error. Exiting. '' @ [LF]),
                Kill (getppid p) SIGUSR1],
               Exit 1)
            else if curr_size + int (strlen tmp_buffer) > INT_MAX then ([], Undefined)
            else
              read_output sys p stream'
                (Some (take (nat (curr_size - 1)) (case output of None \<Rightarrow> [] | Some b \<Rightarrow> b)
                       @ c_str tmp_buffer))
                (curr_size + int (strlen tmp_buffer))))"
  by pat_completeness auto
termination
  by (relation "measure (\<lambda>(sys, p, stream, output, curr_size). length stream)")
     (auto simp: fgets_shorter)

declare read_output.simps [simp del]

text \<open>
  The engine takes the working directory of the process and returns the new one with the
  pointer it returns. The pipe of line 118 has no reader while line 120 writes to it, so
  the \<^verbatim>\<open>write\<close> returns only if the pipe can hold the whole input. \<open>PipeClose\<close> is the
  \<^verbatim>\<open>close\<close> of the write end on line 121; closing the read end on line 146 is not
  recorded.
\<close>

definition execute_on_current_node ::
    "os \<Rightarrow> proc \<Rightarrow> string \<Rightarrow> char list \<Rightarrow> char list \<Rightarrow> (string \<times> char list option) run" where
  "execute_on_current_node sys p cwd input command =
     (if c_at command 0 = CHR ''c'' \<and> c_at command 1 = CHR ''d'' \<and> c_at command 2 = CHR '' '' then
        (case chdir_result sys cwd (c_str (drop 3 command)) of
           None \<Rightarrow>
             ([Chdir (c_str (drop 3 command)), Perror ''chdir'',
               Printf (''Couldn't change directory.'' @ [LF])],
              Ret (cwd, Some []))
         | Some dir \<Rightarrow> ([Chdir (c_str (drop 3 command))], Ret (dir, Some [])))
      else if strlen input > pipe_capacity sys then
        ([PipeWrite (take (pipe_capacity sys) (c_str input))], Blocked)
      else
        (case popen_result sys cwd (c_str command) (c_str input) of
           None \<Rightarrow>
             ([PipeWrite (c_str input), PipeClose, Dup2Stdin, Popen (c_str command),
               Perror ''popen'', Kill (getppid p) SIGUSR1],
              Exit 1)
         | Some out \<Rightarrow>
             seq ([PipeWrite (c_str input), PipeClose, Dup2Stdin, Popen (c_str command)], Ret ())
               (\<lambda>_. seq (read_output sys p out None 1)
                 (\<lambda>output. ([Pclose], Ret (cwd, output))))))"

section \<open>The request channel: \<^verbatim>\<open>request_handler\<close>\<close>

text \<open>
  One pass through the loop of \<^verbatim>\<open>request_handler\<close>, from the accepted connection
  \<open>serv_sock\<close> on, in three parts: lines 293 to 349 read the request, line 352 runs the
  engine, lines 355 to 377 send the reply. A declared length below 0 makes the program
  index its buffer at a negative offset.
\<close>

definition request_receive ::
    "os \<Rightarrow> proc \<Rightarrow> int \<Rightarrow> conn \<Rightarrow> (char list \<times> char list) run" where
  "request_receive sys p cliex_sock c =
     (case sock_read c 6 (malloc sys 7) of (bytes_read, buf1, c1) \<Rightarrow>
      if bytes_read < 0 then
        ([Perror ''read'', Kill (getppid p) SIGUSR1, SockClose cliex_sock], Exit 1)
      else
        (let cmd_hdr = take 6 buf1 in
         case sock_read c1 6 (malloc sys 7) of (bytes_read, buf2, c2) \<Rightarrow>
         if bytes_read < 0 then
           ([Perror ''read'', Kill (getppid p) SIGUSR1, SockClose cliex_sock], Exit 1)
         else
           (let inp_hdr = take 6 buf2 in
            if c_at inp_hdr 0 = CHR ''i'' then
              (let inp_size = atoi (drop 1 inp_hdr) in
               if inp_size < 0 then ([], Undefined)
               else
                 (case sock_read c2 (nat inp_size) (malloc sys (nat inp_size + 1)) of
                    (bytes_read, buf3, c3) \<Rightarrow>
                  let inp = take (nat inp_size) buf3 in
                  if c_at cmd_hdr 0 = CHR ''c'' then
                    (let cmd_size = atoi (drop 1 cmd_hdr) in
                     if cmd_size < 0 then ([], Undefined)
                     else
                       (case sock_read c3 (nat cmd_size) (malloc sys (nat cmd_size + 1)) of
                          (bytes_read, buf4, c4) \<Rightarrow>
                        let cmd = take (nat cmd_size) buf4 in
                        ([], Ret (inp, cmd))))
                  else
                    ([Printf (LF # ''Possible application or network error detected. Exiting application.'' @ [LF]),
                      Kill (getppid p) SIGUSR1, SockClose cliex_sock],
                     Exit 1)))
            else
              ([Printf (LF # ''Possible application or network error detected. Exiting application.'' @ [LF]),
                Kill (getppid p) SIGUSR1, SockClose cliex_sock],
               Exit 1))))"

definition request_reply ::
    "os \<Rightarrow> proc \<Rightarrow> int \<Rightarrow> int \<Rightarrow> write_result \<Rightarrow> char list option \<Rightarrow> unit run" where
  "request_reply sys p cliex_sock serv_sock wr output =
     (case output of
        None \<Rightarrow> ([], Undefined)
      | Some out \<Rightarrow>
          seq (get_header_str sys p ''o'' (to_int (int (strlen out))))
            (\<lambda>output_hdr.
               let msg = c_str output_hdr @ c_str out in
               case sock_write wr serv_sock (c_str msg) of (ev, n) \<Rightarrow>
               let bytes_sent = to_int n in
               if bytes_sent < 0 then
                 (ev @ [Perror ''write'', Printf (''Exiting application.'' @ [LF]),
                        Kill (getppid p) SIGUSR1, SockClose cliex_sock],
                  Exit 1)
               else if nat bytes_sent < strlen msg then
                 (ev @ [Printf (LF # ''Unable to send the complete output to server. Possible network error. Exiting application.'' @ [LF]),
                        Kill (getppid p) SIGUSR1, SockClose cliex_sock],
                  Exit 1)
               else (ev @ [SockClose serv_sock], Ret ())))"

definition request_iteration ::
    "os \<Rightarrow> proc \<Rightarrow> int \<Rightarrow> int \<Rightarrow> string \<Rightarrow> conn \<Rightarrow> write_result \<Rightarrow> string run" where
  "request_iteration sys p cliex_sock serv_sock cwd c wr =
     seq (request_receive sys p cliex_sock c)
       (\<lambda>(inp, cmd). seq (execute_on_current_node sys p cwd inp cmd)
          (\<lambda>(cwd', output). seq (request_reply sys p cliex_sock serv_sock wr output)
             (\<lambda>_. ([], Ret cwd'))))"

text \<open>
  The loop itself never ends of its own accord. It is run here on the connections that
  are accepted one after the other, each with what its \<^verbatim>\<open>write\<close> will accept; \<open>Ret\<close> is
  the handler back in \<^verbatim>\<open>accept\<close> after the last of them, with its working directory.
\<close>

fun request_handler ::
    "os \<Rightarrow> proc \<Rightarrow> int \<Rightarrow> string \<Rightarrow> (int \<times> conn \<times> write_result) list \<Rightarrow> string run" where
  "request_handler sys p cliex_sock cwd [] = ([], Ret cwd)"
| "request_handler sys p cliex_sock cwd ((serv_sock, c, wr) # rest) =
     seq (request_iteration sys p cliex_sock serv_sock cwd c wr)
       (\<lambda>cwd'. request_handler sys p cliex_sock cwd' rest)"

section \<open>The command channel: \<^verbatim>\<open>shell_handler\<close>\<close>

text \<open>
  One pass through the loop of \<^verbatim>\<open>shell_handler\<close>, in two parts: lines 186 to 225 read a
  line and send the command, lines 227 to 261 (\<open>shell_receive\<close>) read and print the reply.
  \<open>line\<close> is what \<^verbatim>\<open>getline\<close> delivers: \<open>None\<close> when it returns -1 (end of input or an
  error), otherwise the bytes of the line with its line feed, if it has one. \<open>c\<close> is the
  receiving side of \<open>serv_fd\<close>.
\<close>

definition shell_receive :: "os \<Rightarrow> proc \<Rightarrow> conn \<Rightarrow> conn run" where
  "shell_receive sys p c =
     (case sock_read c 6 (malloc sys 7) of (bytes_read, buf1, c1) \<Rightarrow>
      if bytes_read < 0 then
        ([Perror ''read'', Kill (child_pid p) SIGUSR1], Exit 1)
      else
        (let output_hdr = take 6 buf1 in
         if c_at output_hdr 0 = CHR ''o'' then
           (let output_size = atoi (drop 1 output_hdr) in
            if output_size < 0 then ([], Undefined)
            else
              (case sock_read c1 (nat output_size) (malloc sys (nat output_size + 1)) of
                 (bytes_read, buf2, c2) \<Rightarrow>
               let output = take (nat output_size) buf2 in
               ([Printf (LF # c_str output @ [LF])], Ret c2)))
         else
           ([Printf (LF # ''tPossible application or network error detected. Exiting application.'' @ [LF]),
             Kill (child_pid p) SIGUSR1],
            Exit 1)))"

definition shell_iteration ::
    "os \<Rightarrow> proc \<Rightarrow> int \<Rightarrow> char list option \<Rightarrow> write_result \<Rightarrow> conn \<Rightarrow> conn run" where
  "shell_iteration sys p serv_fd line wr c =
     (let cmd_inp_len = (case line of None \<Rightarrow> - 1 | Some l \<Rightarrow> int (length l));
          cmd_buff0 = (case line of None \<Rightarrow> [] | Some l \<Rightarrow> l)
      in seq ([Printf (LF # ''[shell]-> '')], Ret ()) (\<lambda>_.
         if cmd_inp_len \<le> 0 \<or> (cmd_inp_len = 1 \<and> c_at cmd_buff0 0 = LF) then ([], Ret c)
         else
           (let cmd_buff = take (nat (cmd_inp_len - 1)) cmd_buff0 in
            if c_str cmd_buff = ''exit'' then
              ([Printf (LF # ''EXITING SHELL...'' @ [LF, LF]), Kill (child_pid p) SIGUSR1], Exit 1)
            else
              seq (get_header_str sys p ''c'' (to_int (cmd_inp_len - 1))) (\<lambda>hdr.
                let msg = c_str hdr @ c_str cmd_buff in
                case sock_write wr serv_fd (c_str msg) of (ev, n) \<Rightarrow>
                let bytes_sent = to_int n in
                if bytes_sent < 0 then
                  (ev @ [Perror ''write'', Printf (''Exiting application.'' @ [LF]),
                         Kill (child_pid p) SIGUSR1],
                   Exit 1)
                else if nat bytes_sent < strlen msg then
                  (ev @ [Printf (LF # ''Unable to send the complete command to server. Possible network error. Exiting application.'' @ [LF]),
                         Kill (child_pid p) SIGUSR1],
                   Exit 1)
                else
                  seq (ev @ [Printf (''Command sent to server: '' @ c_str msg
                                     @ ''. Waiting for response....'' @ [LF])], Ret ())
                    (\<lambda>_. shell_receive sys p c)))))"

text \<open>
  The loop, run on what the operator's input stream delivers, each line with what the
  \<^verbatim>\<open>write\<close> of that pass will accept; \<open>Ret\<close> is the handler back at its prompt after the
  last of them.
\<close>

fun shell_handler ::
    "os \<Rightarrow> proc \<Rightarrow> int \<Rightarrow> (char list option \<times> write_result) list \<Rightarrow> conn \<Rightarrow> conn run" where
  "shell_handler sys p serv_fd [] c = ([], Ret c)"
| "shell_handler sys p serv_fd ((line, wr) # rest) c =
     seq (shell_iteration sys p serv_fd line wr c)
       (\<lambda>c'. shell_handler sys p serv_fd rest c')"

text \<open>
  \<^verbatim>\<open>kill(target, sig)\<close> reaches the process \<open>target\<close>, and with \<open>target = 0\<close> every process
  of the sender's process group, which parent and child share. A process that SIGUSR1
  reaches runs \<open>sigusr1_handler\<close> in place of its next step.
\<close>

definition signal_reaches :: "int \<Rightarrow> int \<Rightarrow> bool" where
  "signal_reaches target pid = (target = pid \<or> target = 0)"

fun signals_for :: "int \<Rightarrow> event list \<Rightarrow> signal list" where
  "signals_for pid [] = []"
| "signals_for pid (Kill target s # ev) =
     (if signal_reaches target pid then s # signals_for pid ev else signals_for pid ev)"
| "signals_for pid (e # ev) = signals_for pid ev"

fun is_sock_write :: "event \<Rightarrow> bool" where
  "is_sock_write (SockWrite fd bs) = True"
| "is_sock_write e = False"

section \<open>A concrete agent for the worked examples\<close>

text \<open>
  The parent is process 4711 and its child is 4712. Fresh memory holds NUL bytes, the
  only directory is \<^verbatim>\<open>/tmp\<close>, and the shell knows \<^verbatim>\<open>cat\<close>, which copies its input, and
  \<^verbatim>\<open>pwd\<close>, which prints the working directory; the file \<^verbatim>\<open>frame.bin\<close> holds the five
  bytes \<^verbatim>\<open>a b NUL c d\<close>; any other command prints nothing. A pipe holds 65536 bytes, and
  an allocation holds at least 24 bytes.
\<close>

definition example_parent :: proc where
  "example_parent = \<lparr>getpid = 4711, getppid = 1, child_pid = 4712\<rparr>"

definition example_child :: proc where
  "example_child = \<lparr>getpid = 4712, getppid = 4711, child_pid = 0\<rparr>"

definition example_os :: os where
  "example_os =
     \<lparr>heap_garbage = (\<lambda>i. NUL),
      chdir_result = (\<lambda>cwd path. if path = ''/tmp'' then Some ''/tmp'' else None),
      popen_result = (\<lambda>cwd command stdin.
         if command = ''cat'' then Some stdin
         else if command = ''pwd'' then Some (cwd @ [LF])
         else if command = ''cat frame.bin'' then Some [CHR ''a'', CHR ''b'', NUL, CHR ''c'', CHR ''d'']
         else Some []),
      realloc_ok = (\<lambda>n. True),
      pipe_capacity = 65536,
      malloc_slack = (\<lambda>n. 24 - n)\<rparr>"

section \<open>Decimal lengths\<close>

lemma digit_cases: "d < 10 \<Longrightarrow> d = 0 \<or> d = 1 \<or> d = 2 \<or> d = 3 \<or> d = 4 \<or> d = 5 \<or> d = 6 \<or> d = 7 \<or> d = 8 \<or> d = (9::nat)"
  by arith

lemma digit_char_props:
  assumes "d < 10"
  shows "isdigit (digit_char d)" and "digit_val (digit_char d) = int d"
    and "digit_char d \<noteq> NUL" and "\<not> isspace (digit_char d)"
    and "digit_char d \<noteq> CHR ''-''" and "digit_char d \<noteq> CHR ''+''"
  using digit_cases [OF assms]
  by (auto simp: digit_char_def isdigit_def digit_val_def isspace_def)

lemma c_div_10_nonneg: "0 \<le> s \<Longrightarrow> c_div s 10 = s div 10"
  by (simp add: c_div_def sgn_if)

lemma dec_digits_length_pos: "0 < length (dec_digits n)"
  by (subst dec_digits.simps) simp

lemma dec_digits_small: "n < 10 \<Longrightarrow> dec_digits n = [digit_char n]"
  by (subst dec_digits.simps) simp

lemma dec_digits_big: "\<not> n < 10 \<Longrightarrow> dec_digits n = dec_digits (n div 10) @ [digit_char (n mod 10)]"
  by (subst dec_digits.simps) simp

lemma num_length_loop_nat:
  "0 < n \<Longrightarrow> num_length_loop (int n) k = k + int (length (dec_digits n))"
proof (induction n arbitrary: k rule: dec_digits.induct)
  case (1 n)
  show ?case
  proof (cases "n < 10")
    case True
    with "1.prems" have "c_div (int n) 10 = 0"
      by (simp add: c_div_10_nonneg)
    with True "1.prems" show ?thesis
      by (simp add: num_length_loop.simps [of "int n"] num_length_loop.simps [of 0] dec_digits_small)
  next
    case False
    then have pos: "0 < n div 10" by simp
    have "c_div (int n) 10 = int (n div 10)"
      by (simp add: c_div_10_nonneg zdiv_int)
    with False "1.IH" [OF False pos, of "k + 1"] "1.prems" show ?thesis
      by (simp add: num_length_loop.simps [of "int n"] dec_digits_big)
  qed
qed

lemma dec_digits_length_le: "0 < k \<Longrightarrow> n < 10 ^ k \<Longrightarrow> length (dec_digits n) \<le> k"
proof (induction k arbitrary: n)
  case 0
  then show ?case by simp
next
  case (Suc k)
  show ?case
  proof (cases "n < 10")
    case True
    then show ?thesis by (simp add: dec_digits_small)
  next
    case False
    with Suc.prems have "0 < k" by (cases k) auto
    moreover from Suc.prems have "n div 10 < 10 ^ k" by (simp add: less_mult_imp_div_less mult.commute)
    ultimately have "length (dec_digits (n div 10)) \<le> k" by (rule Suc.IH)
    with False show ?thesis by (simp add: dec_digits_big)
  qed
qed

lemma dec_digits_length_gt: "10 ^ k \<le> n \<Longrightarrow> k < length (dec_digits n)"
proof (induction k arbitrary: n)
  case 0
  show ?case by (rule dec_digits_length_pos)
next
  case (Suc k)
  have "(10::nat) \<le> 10 ^ Suc k" by simp
  with Suc.prems have big: "\<not> n < 10" by linarith
  from Suc.prems have "10 ^ k \<le> n div 10"
    by (simp add: less_eq_div_iff_mult_less_eq mult.commute)
  then have "k < length (dec_digits (n div 10))" by (rule Suc.IH)
  with big show ?case by (simp add: dec_digits_big)
qed

lemma atoi_digits_dec:
  "atoi_digits acc (dec_digits n @ rest) = atoi_digits (acc * 10 ^ length (dec_digits n) + int n) rest"
proof (induction n arbitrary: acc rest rule: dec_digits.induct)
  case (1 n)
  show ?case
  proof (cases "n < 10")
    case True
    then show ?thesis
      by (simp add: dec_digits_small digit_char_props)
  next
    case False
    have m: "n mod 10 < 10" by simp
    have "atoi_digits acc (dec_digits n @ rest)
        = atoi_digits acc (dec_digits (n div 10) @ (digit_char (n mod 10) # rest))"
      using False by (simp add: dec_digits_big)
    also have "\<dots> = atoi_digits (acc * 10 ^ length (dec_digits (n div 10)) + int (n div 10))
                       (digit_char (n mod 10) # rest)"
      using False by (rule "1.IH")
    also have "\<dots> = atoi_digits ((acc * 10 ^ length (dec_digits (n div 10)) + int (n div 10)) * 10
                                    + int (n mod 10)) rest"
      using m by (simp add: digit_char_props)
    also have "(acc * 10 ^ length (dec_digits (n div 10)) + int (n div 10)) * 10 + int (n mod 10)
             = acc * 10 ^ length (dec_digits n) + int n"
      using False by (simp add: dec_digits_big algebra_simps zdiv_int zmod_int)
    finally show ?thesis .
  qed
qed

lemma atoi_digits_zeroes:
  "atoi_digits 0 (replicate k (CHR ''0'') @ s) = atoi_digits 0 s"
  by (induction k) (simp_all add: isdigit_def digit_val_def)

lemma dec_digits_chars: "c \<in> set (dec_digits n) \<Longrightarrow> c \<in> set ''0123456789''"
proof (induction n rule: dec_digits.induct)
  case (1 n)
  show ?case
  proof (cases "n < 10")
    case True
    with "1.prems" digit_char_props(1) [of n] show ?thesis
      by (simp add: dec_digits_small isdigit_def)
  next
    case False
    have "n mod 10 < 10" by simp
    then have "isdigit (digit_char (n mod 10))" by (rule digit_char_props)
    with False "1.prems" "1.IH" show ?thesis
      by (auto simp: dec_digits_big isdigit_def)
  qed
qed


lemma c_str_no_NUL: "NUL \<notin> set s \<Longrightarrow> c_str s = s"
  by (auto simp: c_str_def takeWhile_eq_all_conv)

lemma atoi_digit_string:
  assumes "s \<noteq> []" and "set s \<subseteq> set ''0123456789''"
  shows "atoi s = atoi_digits 0 s"
proof -
  from assms(1) obtain c cs where s: "s = c # cs" by (cases s) auto
  from assms(2) have "NUL \<notin> set s" by auto
  then have cs: "c_str s = s" by (rule c_str_no_NUL)
  from assms(2) s have c: "c \<in> set ''0123456789''" by simp
  then have "\<not> isspace c" and "c \<noteq> CHR ''-''" and "c \<noteq> CHR ''+''"
    by (auto simp: isspace_def)
  with s cs show ?thesis
    by (simp add: atoi_def)
qed

lemma header_digits:
  assumes "n \<le> 99999" and "strlen co = 1" and room: "\<And>m. 7 \<le> m + malloc_slack sys m"
  shows "get_header_str sys p co (int n)
           = ([], Ret (c_str co @ replicate (5 - length (dec_digits n)) (CHR ''0'') @ dec_digits n))"
    and "length (dec_digits n) \<le> 5"
proof -
  from assms(1) have "n < 10 ^ 5" by simp
  then show len: "length (dec_digits n) \<le> 5"
    by (intro dec_digits_length_le) simp_all
  have co: "length (c_str co) = 1"
    using assms(2) by (simp add: strlen_def)
  show "get_header_str sys p co (int n)
           = ([], Ret (c_str co @ replicate (5 - length (dec_digits n)) (CHR ''0'') @ dec_digits n))"
  proof (cases "n = 0")
    case True
    have "\<not> 7 > 3 + malloc_slack sys 3"
      using room [of 3] by simp
    with True co show ?thesis
      by (simp add: get_header_str_def HEADER_SIZE_def printf_d_def dec_digits_small Let_def)
  next
    case False
    then have nl: "num_length_loop (int n) 0 = int (length (dec_digits n))"
      by (simp add: num_length_loop_nat)
    have n5: "nat (5 - int (length (dec_digits n))) = 5 - length (dec_digits n)"
      by simp
    have n2: "nat (2 + int (length (dec_digits n))) = Suc (Suc (length (dec_digits n)))"
      by simp
    have "7 \<le> Suc (Suc (length (dec_digits n))) + malloc_slack sys (Suc (Suc (length (dec_digits n))))"
      by (rule room)
    with False len co nl show ?thesis
      unfolding get_header_str_def Let_def HEADER_SIZE_def nl
      by (simp add: printf_d_def n2 n5)
  qed
qed

lemma atoi_zero_padded:
  "atoi (replicate k (CHR ''0'') @ dec_digits n) = int n"
proof -
  let ?s = "replicate k (CHR ''0'') @ dec_digits n"
  have "?s \<noteq> []"
    using dec_digits_length_pos [of n] by auto
  moreover have "set ?s \<subseteq> set ''0123456789''"
    using dec_digits_chars [of _ n] by auto
  ultimately have "atoi ?s = atoi_digits 0 ?s"
    by (rule atoi_digit_string)
  also have "\<dots> = atoi_digits 0 (dec_digits n @ [])"
    by (simp add: atoi_digits_zeroes)
  also have "\<dots> = int n"
    by (simp only: atoi_digits_dec) simp
  finally show ?thesis .
qed

lemma sock_read_exact:
  "sock_read (Seg (d @ rest) # q) (length d) buf
     = (int (length d), d @ drop (length d) buf, if rest = [] then q else Seg rest # q)"
  by (simp add: Let_def)

text \<open>
  With an allocator that leaves the room, a tag of one byte and a payload without NUL of
  at most 99999 bytes, the header has 6 bytes and decodes to the tag and the length, and
  two reads of 6 bytes and of the decoded length give header and payload back.
\<close>

lemma round_trip_with_room:
  assumes "co \<in> {''c'', ''o'', ''i''}" and "strlen payload = n" and "n \<le> 99999"
    and room: "\<And>m. 7 \<le> m + malloc_slack sys m"
  shows "\<exists>hdr. get_header_str sys p co (int n) = ([], Ret hdr)
           \<and> length hdr = 6
           \<and> [c_at hdr 0] = co
           \<and> atoi (drop 1 hdr) = int n
           \<and> (case sock_read (Seg (hdr @ c_str payload) # q) 6 (malloc sys 7) of
                (bytes_read, buf1, c1) \<Rightarrow>
                  bytes_read = 6 \<and> take 6 buf1 = hdr \<and>
                  (case sock_read c1 (nat (atoi (drop 1 (take 6 buf1))))
                          (malloc sys (nat (atoi (drop 1 (take 6 buf1))) + 1)) of
                     (bytes_read, buf2, c2) \<Rightarrow>
                       take (nat (atoi (drop 1 (take 6 buf1)))) buf2 = c_str payload))"
proof -
  define L where "L = length (dec_digits n)"
  define hdr where "hdr = c_str co @ replicate (5 - L) (CHR ''0'') @ dec_digits n"
  define body where "body = c_str payload"
  from assms(1) have co: "c_str co = co" "length co = 1" "[c_at co 0] = co"
    by (auto simp: c_str_def c_at_def)
  from co have sl: "strlen co = 1" by (simp add: strlen_def)
  have g: "get_header_str sys p co (int n) = ([], Ret hdr)" and L: "L \<le> 5"
    unfolding hdr_def L_def by (rule header_digits [OF assms(3) sl room])+
  from co L have len: "length hdr = 6"
    by (simp add: hdr_def L_def)
  from co have tag: "[c_at hdr 0] = co"
    by (cases co) (auto simp: c_at_def hdr_def)
  from co have "drop 1 hdr = replicate (5 - L) (CHR ''0'') @ dec_digits n"
    by (simp add: hdr_def)
  then have dec: "atoi (drop 1 hdr) = int n"
    by (simp only: atoi_zero_padded)
  have pl: "length body = n"
    using assms(2) by (simp add: strlen_def body_def)
  have r1: "sock_read (Seg (hdr @ body) # q) 6 (malloc sys 7)
              = (6, hdr @ drop 6 (malloc sys 7), if body = [] then q else Seg body # q)"
    using sock_read_exact [of hdr body q "malloc sys 7"] len by simp
  have t1: "take 6 (hdr @ drop 6 (malloc sys 7)) = hdr"
    using len by simp
  have r2: "take n (fst (snd (sock_read (if body = [] then q else Seg body # q) n
                                 (malloc sys (n + 1))))) = body"
  proof (cases "body = []")
    case True
    with pl show ?thesis by simp
  next
    case False
    have "sock_read (Seg body # q) (length body) (malloc sys (n + 1))
            = (int (length body), body @ drop (length body) (malloc sys (n + 1)), q)"
      using sock_read_exact [of body "[]" q "malloc sys (n + 1)"] by simp
    with False pl show ?thesis by simp
  qed
  have "case sock_read (Seg (hdr @ body) # q) 6 (malloc sys 7) of
          (bytes_read, buf1, c1) \<Rightarrow>
            bytes_read = 6 \<and> take 6 buf1 = hdr \<and>
            (case sock_read c1 (nat (atoi (drop 1 (take 6 buf1))))
                    (malloc sys (nat (atoi (drop 1 (take 6 buf1))) + 1)) of
               (bytes_read, buf2, c2) \<Rightarrow>
                 take (nat (atoi (drop 1 (take 6 buf1)))) buf2 = body)"
    unfolding r1 prod.case t1 dec nat_int using r2 by (simp add: split_beta)
  then have "get_header_str sys p co (int n) = ([], Ret hdr)
           \<and> length hdr = 6
           \<and> [c_at hdr 0] = co
           \<and> atoi (drop 1 hdr) = int n
           \<and> (case sock_read (Seg (hdr @ c_str payload) # q) 6 (malloc sys 7) of
                (bytes_read, buf1, c1) \<Rightarrow>
                  bytes_read = 6 \<and> take 6 buf1 = hdr \<and>
                  (case sock_read c1 (nat (atoi (drop 1 (take 6 buf1))))
                          (malloc sys (nat (atoi (drop 1 (take 6 buf1))) + 1)) of
                     (bytes_read, buf2, c2) \<Rightarrow>
                       take (nat (atoi (drop 1 (take 6 buf1)))) buf2 = c_str payload))"
    using g len tag dec unfolding body_def by (intro conjI)
  then show ?thesis by (rule exI)
qed


section \<open>The engine\<close>

lemma cd_test_iff:
  "(c_at command 0 = CHR ''c'' \<and> c_at command 1 = CHR ''d'' \<and> c_at command 2 = CHR '' '')
     = (take 3 command = ''cd '')"
proof (cases command)
  case Nil
  then show ?thesis by (simp add: c_at_def)
next
  case (Cons a r1)
  note c1 = this
  show ?thesis
  proof (cases r1)
    case Nil
    with c1 show ?thesis by (simp add: c_at_def)
  next
    case (Cons b r2)
    note c2 = this
    show ?thesis
    proof (cases r2)
      case Nil
      with c1 c2 show ?thesis by (simp add: c_at_def)
    next
      case (Cons c r3)
      with c1 c2 show ?thesis by (simp add: c_at_def)
    qed
  qed
qed

lemma read_output_events:
  "e \<in> set (fst (read_output sys p s out cs)) \<Longrightarrow> (\<exists>m. e = Printf m) \<or> (\<exists>t. e = Kill t SIGUSR1)"
proof (induction sys p s out cs rule: read_output.induct)
  case (1 sys p stream outp curr_size)
  show ?case
  proof (cases "stream = []")
    case True
    with "1.prems" show ?thesis by (simp add: read_output.simps)
  next
    case False
    with "1.prems" "1.IH" show ?thesis
      by (subst (asm) read_output.simps) (auto simp: Let_def split: if_splits)
  qed
qed

lemma fgets_upto_split: "fst (fgets_upto n s) @ snd (fgets_upto n s) = s"
  by (induction n s rule: fgets_upto.induct) (auto split: prod.splits)

lemma fgets_split: "fst (fgets sz s) @ snd (fgets sz s) = s"
  by (simp add: fgets_def fgets_upto_split)

lemma read_output_collects:
  "NUL \<notin> set s \<Longrightarrow> (\<And>n. n \<le> length acc + length s + 1 \<Longrightarrow> realloc_ok sys n)
     \<Longrightarrow> int (length acc) + int (length s) < INT_MAX
     \<Longrightarrow> read_output sys p s (Some acc) (1 + int (length acc)) = ([], Ret (Some (acc @ s)))"
proof (induction s arbitrary: acc rule: length_induct)
  case (1 s)
  show ?case
  proof (cases "s = []")
    case True
    then show ?thesis by (simp add: read_output.simps)
  next
    case False
    define tmp where "tmp = fst (fgets 200 s)"
    define rest where "rest = snd (fgets 200 s)"
    have split: "tmp @ rest = s"
      unfolding tmp_def rest_def by (rule fgets_split)
    have shorter: "length rest < length s"
      unfolding rest_def using False by (intro fgets_shorter) simp_all
    from split "1.prems"(1) have nn: "NUL \<notin> set tmp" "NUL \<notin> set rest" by auto
    then have ct: "c_str tmp = tmp" by (simp add: c_str_no_NUL)
    then have sl: "strlen tmp = length tmp" by (simp add: strlen_def)
    from split have len: "length s = length tmp + length rest" by (metis length_append)
    have ok: "realloc_ok sys (nat (1 + int (length acc) + int (length tmp)))"
      using len by (intro "1.prems"(2)) simp
    have small: "\<not> 1 + int (length acc) + int (length tmp) > INT_MAX"
      using "1.prems"(3) len by simp
    have step: "read_output sys p s (Some acc) (1 + int (length acc))
                  = read_output sys p rest (Some (acc @ tmp)) (1 + int (length (acc @ tmp)))"
      using False ok small ct sl
      by (subst read_output.simps) (simp add: Let_def tmp_def [symmetric] rest_def [symmetric] add.assoc)
    have "read_output sys p rest (Some (acc @ tmp)) (1 + int (length (acc @ tmp)))
            = ([], Ret (Some ((acc @ tmp) @ rest)))"
    proof (rule "1.IH" [rule_format, OF shorter nn(2)])
      fix n assume "n \<le> length (acc @ tmp) + length rest + 1"
      with len show "realloc_ok sys n" by (intro "1.prems"(2)) simp
    next
      from "1.prems"(3) len show "int (length (acc @ tmp)) + int (length rest) < INT_MAX" by simp
    qed
    with step split show ?thesis by simp
  qed
qed

lemma read_output_from_null:
  assumes "out \<noteq> []" and "NUL \<notin> set out"
    and "\<And>n. n \<le> length out + 1 \<Longrightarrow> realloc_ok sys n"
    and "int (length out) < INT_MAX"
  shows "read_output sys p out None 1 = ([], Ret (Some out))"
proof -
  define tmp where "tmp = fst (fgets 200 out)"
  define rest where "rest = snd (fgets 200 out)"
  have split: "tmp @ rest = out"
    unfolding tmp_def rest_def by (rule fgets_split)
  from split assms(2) have nn: "NUL \<notin> set tmp" "NUL \<notin> set rest" by auto
  then have ct: "c_str tmp = tmp" by (simp add: c_str_no_NUL)
  then have sl: "strlen tmp = length tmp" by (simp add: strlen_def)
  from split have len: "length out = length tmp + length rest" by (metis length_append)
  have ok: "realloc_ok sys (nat (1 + int (length tmp)))"
    using len by (intro assms(3)) simp
  have small: "\<not> 1 + int (length tmp) > INT_MAX"
    using assms(4) len by simp
  have step: "read_output sys p out None 1 = read_output sys p rest (Some tmp) (1 + int (length tmp))"
    using assms(1) ok small ct sl
    by (subst read_output.simps) (simp add: Let_def tmp_def [symmetric] rest_def [symmetric])
  have "read_output sys p rest (Some tmp) (1 + int (length tmp)) = ([], Ret (Some (tmp @ rest)))"
  proof (rule read_output_collects [OF nn(2)])
    fix n assume "n \<le> length tmp + length rest + 1"
    with len show "realloc_ok sys n" by (intro assms(3)) simp
  next
    from assms(4) len show "int (length tmp) + int (length rest) < INT_MAX" by simp
  qed
  with step split show ?thesis by simp
qed

text \<open>
  C5. When the command starts with \<^verbatim>\<open>cd\<close> and a space and \<^verbatim>\<open>chdir\<close> to the rest of it
  fails, the engine reports the failure on the console only: it returns normally, the
  working directory is the one it was called with, the result is the empty string, and no
  signal is sent.
\<close>

theorem cd_failure_is_swallowed:
  assumes "take 3 command = ''cd ''"
    and "chdir_result sys cwd (c_str (drop 3 command)) = None"
  shows "execute_on_current_node sys p cwd input command
           = ([Chdir (c_str (drop 3 command)), Perror ''chdir'',
               Printf (''Couldn't change directory.'' @ [LF])],
              Ret (cwd, Some []))"
  unfolding execute_on_current_node_def cd_test_iff using assms by simp

theorem cd_failure_is_swallowed_witness:
  "take 3 ''cd /does/not/exist'' = ''cd ''
   \<and> chdir_result example_os ''/home/u'' (c_str (drop 3 ''cd /does/not/exist'')) = None
   \<and> execute_on_current_node example_os example_child ''/home/u'' ''x'' ''cd /does/not/exist''
           = ([Chdir ''/does/not/exist'', Perror ''chdir'',
               Printf (''Couldn't change directory.'' @ [LF])],
              Ret (''/home/u'', Some []))"
proof -
  have h1: "take 3 ''cd /does/not/exist'' = ''cd ''" by simp
  have h2: "chdir_result example_os ''/home/u'' (c_str (drop 3 ''cd /does/not/exist'')) = None"
    by (simp add: c_str_def example_os_def)
  from cd_failure_is_swallowed [OF h1 h2, where p = example_child and input = "''x''"] h1 h2
  show ?thesis by (simp add: c_str_def)
qed

text \<open>
  What the engine does when nothing goes wrong: for a command that is not the built-in
  and an input whose C string fits the pipe, with a subprocess output that is not empty,
  holds no NUL byte and is shorter than \<open>INT_MAX\<close> bytes, and every \<^verbatim>\<open>realloc\<close>
  succeeding, it writes the input to the pipe, closes the pipe, starts the subprocess and
  returns exactly its output.
\<close>

lemma engine_returns_subprocess_output:
  assumes "take 3 command \<noteq> ''cd ''"
    and "strlen input \<le> pipe_capacity sys"
    and "popen_result sys cwd (c_str command) (c_str input) = Some out"
    and "out \<noteq> []" and "NUL \<notin> set out"
    and "\<forall>n \<le> length out + 1. realloc_ok sys n"
    and "int (length out) < INT_MAX"
  shows "execute_on_current_node sys p cwd input command
           = ([PipeWrite (c_str input), PipeClose, Dup2Stdin, Popen (c_str command), Pclose],
              Ret (cwd, Some out))"
proof -
  have "read_output sys p out None 1 = ([], Ret (Some out))"
    using assms(4-7) by (intro read_output_from_null) simp_all
  with assms(1-3) show ?thesis
    unfolding execute_on_current_node_def cd_test_iff by (simp add: seq_def)
qed

lemma fgets_upto_one_line:
  "LF \<notin> set (butlast s) \<Longrightarrow> length s \<le> n \<Longrightarrow> fgets_upto n s = (s, [])"
proof (induction n s rule: fgets_upto.induct)
  case (1 s)
  then show ?case by simp
next
  case (2 n)
  then show ?case by simp
next
  case (3 n c s)
  show ?case
  proof (cases "c = LF")
    case True
    with "3.prems" have "s = []" by (cases s) auto
    with True show ?thesis by simp
  next
    case False
    with "3.prems" have "LF \<notin> set (butlast s)" and "length s \<le> n"
      by (auto split: if_splits)
    with False "3.IH" show ?thesis by simp
  qed
qed

lemma read_output_one_chunk:
  assumes "s \<noteq> []" and "LF \<notin> set (butlast s)" and "length s \<le> 199"
    and "realloc_ok sys (nat (1 + int (strlen s)))"
  shows "read_output sys p s None 1 = ([], Ret (Some (c_str s)))"
proof -
  from assms(2,3) have f: "fgets 200 s = (s, [])"
    by (simp add: fgets_def fgets_upto_one_line)
  have "strlen s \<le> length s"
    by (simp add: strlen_def c_str_def length_takeWhile_le)
  with assms(3) have small: "\<not> 1 + int (strlen s) > INT_MAX"
    by (simp add: INT_MAX_def)
  have last: "read_output sys p [] (Some (c_str s)) (1 + int (strlen s)) = ([], Ret (Some (c_str s)))"
    by (simp add: read_output.simps)
  from assms(1,4) small last show ?thesis
    by (subst read_output.simps) (simp add: f Let_def)
qed

text \<open>
  The output is collected as C strings: when the subprocess writes the five bytes
  \<^verbatim>\<open>a b NUL c d\<close>, the engine returns \<^verbatim>\<open>ab\<close>.
\<close>

lemma engine_cuts_output_at_NUL:
  "popen_result example_os ''/home/u'' (c_str ''cat frame.bin'') (c_str []) = Some [CHR ''a'', CHR ''b'', NUL, CHR ''c'', CHR ''d'']
   \<and> execute_on_current_node example_os example_child ''/home/u'' [] ''cat frame.bin''
        = ([PipeWrite [], PipeClose, Dup2Stdin, Popen ''cat frame.bin'', Pclose],
           Ret (''/home/u'', Some ''ab''))"
proof -
  have po: "popen_result example_os ''/home/u'' (c_str ''cat frame.bin'') (c_str [])
              = Some [CHR ''a'', CHR ''b'', NUL, CHR ''c'', CHR ''d'']"
    by (simp add: c_str_def example_os_def)
  have "read_output example_os example_child [CHR ''a'', CHR ''b'', NUL, CHR ''c'', CHR ''d''] None 1
          = ([], Ret (Some (c_str [CHR ''a'', CHR ''b'', NUL, CHR ''c'', CHR ''d''])))"
    by (rule read_output_one_chunk) (simp_all add: example_os_def)
  then have ro: "read_output example_os example_child [CHR ''a'', CHR ''b'', NUL, CHR ''c'', CHR ''d''] None 1
          = ([], Ret (Some ''ab''))"
    by (simp add: c_str_def)
  have "execute_on_current_node example_os example_child ''/home/u'' [] ''cat frame.bin''
        = ([PipeWrite [], PipeClose, Dup2Stdin, Popen ''cat frame.bin'', Pclose],
           Ret (''/home/u'', Some ''ab''))"
    unfolding execute_on_current_node_def cd_test_iff po
    by (simp add: ro seq_def strlen_def c_str_def)
  with po show ?thesis by simp
qed

lemma seq_events:
  "fst (seq m f) = fst m @ (case snd m of Ret x \<Rightarrow> fst (f x) | _ \<Rightarrow> [])"
  by (cases m; cases "snd m") (auto simp: seq_def split: prod.splits)

text \<open>
  The engine takes the built-in branch exactly when the first three bytes of the command
  are \<^verbatim>\<open>c\<close>, \<^verbatim>\<open>d\<close> and a space: then it calls \<^verbatim>\<open>chdir\<close> on the rest and starts no
  subprocess. Any other command causes no \<^verbatim>\<open>chdir\<close>, and reaches \<^verbatim>\<open>popen\<close> if the write of
  the input to the pipe returns.
\<close>

lemma cd_test_decides_the_branch:
  "(take 3 command = ''cd '' \<longrightarrow>
      (\<exists>ev dir. execute_on_current_node sys p cwd input command
                  = (Chdir (c_str (drop 3 command)) # ev, Ret (dir, Some [])))
      \<and> (\<forall>c. Popen c \<notin> set (fst (execute_on_current_node sys p cwd input command))))
   \<and> (take 3 command \<noteq> ''cd '' \<longrightarrow>
      (\<forall>path. Chdir path \<notin> set (fst (execute_on_current_node sys p cwd input command)))
      \<and> (strlen input \<le> pipe_capacity sys \<longrightarrow>
           take 4 (fst (execute_on_current_node sys p cwd input command))
             = [PipeWrite (c_str input), PipeClose, Dup2Stdin, Popen (c_str command)]))"
proof (intro conjI impI)
  assume cd: "take 3 command = ''cd ''"
  then show "\<exists>ev dir. execute_on_current_node sys p cwd input command
                  = (Chdir (c_str (drop 3 command)) # ev, Ret (dir, Some []))"
    unfolding execute_on_current_node_def cd_test_iff
    by (cases "chdir_result sys cwd (c_str (drop 3 command))") simp_all
  from cd show "\<forall>c. Popen c \<notin> set (fst (execute_on_current_node sys p cwd input command))"
    unfolding execute_on_current_node_def cd_test_iff
    by (cases "chdir_result sys cwd (c_str (drop 3 command))") simp_all
next
  assume ncd: "take 3 command \<noteq> ''cd ''"
  show "\<forall>path. Chdir path \<notin> set (fst (execute_on_current_node sys p cwd input command))"
  proof (intro allI notI)
    fix path
    assume a: "Chdir path \<in> set (fst (execute_on_current_node sys p cwd input command))"
    show False
    proof (cases "popen_result sys cwd (c_str command) (c_str input)")
      case None
      with a ncd show False
        unfolding execute_on_current_node_def cd_test_iff
        by (simp split: if_splits)
    next
      case (Some out)
      with a ncd have "Chdir path \<in> set (fst (read_output sys p out None 1))"
        unfolding execute_on_current_node_def cd_test_iff
        by (cases "snd (read_output sys p out None 1)")
           (auto simp: seq_events split: if_splits)
      then show False
        by (auto dest: read_output_events)
    qed
  qed
next
  assume ncd: "take 3 command \<noteq> ''cd ''" and fits: "strlen input \<le> pipe_capacity sys"
  then show "take 4 (fst (execute_on_current_node sys p cwd input command))
             = [PipeWrite (c_str input), PipeClose, Dup2Stdin, Popen (c_str command)]"
    unfolding execute_on_current_node_def cd_test_iff
    by (cases "popen_result sys cwd (c_str command) (c_str input)")
       (simp_all add: seq_events)
qed

lemma silent_stream: "read_output sys p [] None 1 = ([], Ret None)"
  by (simp add: read_output.simps)

text \<open>
  C3 fails on the code. The input is written to a pipe that nobody reads yet (lines 118
  to 120). An input of 70000 bytes without NUL, within the 99999 bytes the program allows
  (line 21), does not fit a pipe of 65536 bytes: the \<^verbatim>\<open>write\<close> never returns, the pipe is
  not closed, the subprocess is not started and nothing is returned.
\<close>

theorem large_input_blocks_in_pipe_write:
  "strlen (replicate 70000 (CHR ''a'')) = 70000
   \<and> pipe_capacity example_os = 65536
   \<and> execute_on_current_node example_os example_child ''/home/u'' (replicate 70000 (CHR ''a'')) ''cat''
        = ([PipeWrite (replicate 65536 (CHR ''a''))], Blocked)"
proof -
  have cs: "c_str (replicate 70000 (CHR ''a'')) = replicate 70000 (CHR ''a'')"
    by (simp add: c_str_def)
  have cap: "pipe_capacity example_os = 65536"
    by (simp add: example_os_def)
  have "execute_on_current_node example_os example_child ''/home/u'' (replicate 70000 (CHR ''a'')) ''cat''
        = ([PipeWrite (replicate 65536 (CHR ''a''))], Blocked)"
    unfolding execute_on_current_node_def cd_test_iff
    by (simp add: strlen_def cs cap)
  with cs cap show ?thesis
    by (simp add: strlen_def)
qed

text \<open>
  C9 fails on the code. The bare word \<^verbatim>\<open>cd\<close> is not taken for the built-in, but with an
  input of 70000 bytes it is not launched either: the engine blocks in the \<^verbatim>\<open>write\<close> to
  the pipe, before \<^verbatim>\<open>popen\<close>.
\<close>

theorem bare_cd_with_large_input_is_never_launched:
  "take 3 ''cd'' \<noteq> ''cd ''
   \<and> execute_on_current_node example_os example_child ''/home/u'' (replicate 70000 (CHR ''a'')) ''cd''
        = ([PipeWrite (replicate 65536 (CHR ''a''))], Blocked)"
proof -
  have cs: "c_str (replicate 70000 (CHR ''a'')) = replicate 70000 (CHR ''a'')"
    by (simp add: c_str_def)
  have cap: "pipe_capacity example_os = 65536"
    by (simp add: example_os_def)
  have "execute_on_current_node example_os example_child ''/home/u'' (replicate 70000 (CHR ''a'')) ''cd''
        = ([PipeWrite (replicate 65536 (CHR ''a''))], Blocked)"
    unfolding execute_on_current_node_def cd_test_iff
    by (simp add: strlen_def cs cap)
  then show ?thesis by simp
qed

section \<open>The request channel, one exchange\<close>

lemma to_int_small: "0 \<le> x \<Longrightarrow> x \<le> INT_MAX \<Longrightarrow> to_int x = x"
  by (simp add: to_int_def INT_MAX_def)

lemma request_receive_complete:
  assumes hc: "length hc = 6" "c_at hc 0 = CHR ''c''" "atoi (drop 1 hc) = int (length cb)"
    and hi: "length hi = 6" "c_at hi 0 = CHR ''i''" "atoi (drop 1 hi) = int (length ib)"
  shows "request_receive sys p cliex_sock (Seg (hc @ hi @ ib @ cb) # q) = ([], Ret (ib, cb))"
proof -
  from hi(1) have ne: "hi @ ib @ cb \<noteq> []" by auto
  have r1: "sock_read (Seg (hc @ hi @ ib @ cb) # q) 6 (malloc sys 7)
              = (6, hc @ drop 6 (malloc sys 7), Seg (hi @ ib @ cb) # q)"
    using sock_read_exact [of hc "hi @ ib @ cb" q "malloc sys 7"] hc(1) ne by simp
  have r2: "sock_read (Seg (hi @ ib @ cb) # q) 6 (malloc sys 7)
              = (6, hi @ drop 6 (malloc sys 7), if ib @ cb = [] then q else Seg (ib @ cb) # q)"
    using sock_read_exact [of hi "ib @ cb" q "malloc sys 7"] hi(1) by simp
  have t1: "take 6 (hc @ drop 6 (malloc sys 7)) = hc" and t2: "take 6 (hi @ drop 6 (malloc sys 7)) = hi"
    using hc(1) hi(1) by simp_all
  have start: "request_receive sys p cliex_sock (Seg (hc @ hi @ ib @ cb) # q)
      = (case sock_read (if ib @ cb = [] then q else Seg (ib @ cb) # q) (length ib)
                (malloc sys (length ib + 1)) of
           (bytes_read, buf3, c3) \<Rightarrow>
             (case sock_read c3 (length cb) (malloc sys (length cb + 1)) of
                (bytes_read, buf4, c4) \<Rightarrow> ([], Ret (take (length ib) buf3, take (length cb) buf4))))"
    unfolding request_receive_def r1 prod.case
    by (simp only: t1 t2 r2 prod.case Let_def hc hi nat_int) simp
  show ?thesis
  proof (cases "ib = []")
    case True
    note ib = this
    show ?thesis
    proof (cases "cb = []")
      case True
      with ib show ?thesis
        unfolding start by (simp split: prod.splits)
    next
      case False
      have "sock_read (Seg cb # q) (length cb) (malloc sys (length cb + 1))
              = (int (length cb), cb @ drop (length cb) (malloc sys (length cb + 1)), q)"
        using sock_read_exact [of cb "[]" q] by simp
      with ib False show ?thesis
        unfolding start by (simp add: Let_def)
    qed
  next
    case False
    note ib = this
    have r3: "sock_read (Seg (ib @ cb) # q) (length ib) (malloc sys (length ib + 1))
              = (int (length ib), ib @ drop (length ib) (malloc sys (length ib + 1)),
                 if cb = [] then q else Seg cb # q)"
      by (rule sock_read_exact)
    show ?thesis
    proof (cases "cb = []")
      case True
      with ib r3 show ?thesis
        unfolding start by (simp split: prod.splits)
    next
      case False
      have "sock_read (Seg cb # q) (length cb) (malloc sys (length cb + 1))
              = (int (length cb), cb @ drop (length cb) (malloc sys (length cb + 1)), q)"
        using sock_read_exact [of cb "[]" q] by simp
      with ib False r3 show ?thesis
        unfolding start by simp
    qed
  qed
qed

lemma c_str_has_no_NUL: "NUL \<notin> set (c_str mem)"
  by (auto simp: c_str_def dest: set_takeWhileD)

lemma c_str_append: "NUL \<notin> set a \<Longrightarrow> c_str (a @ c_str b) = a @ c_str b"
  by (rule c_str_no_NUL) (simp add: c_str_has_no_NUL)

lemma header_fields:
  assumes "n \<le> 99999" and "length co = 1" and "NUL \<notin> set co"
    and room: "\<And>m. 7 \<le> m + malloc_slack sys m"
  shows "\<exists>hdr. get_header_str sys p co (int n) = ([], Ret hdr) \<and> length hdr = 6
           \<and> [c_at hdr 0] = co \<and> atoi (drop 1 hdr) = int n \<and> NUL \<notin> set hdr"
proof -
  define L where "L = length (dec_digits n)"
  define hdr where "hdr = c_str co @ replicate (5 - L) (CHR ''0'') @ dec_digits n"
  from assms(3) have co: "c_str co = co" by (rule c_str_no_NUL)
  with assms(2) have sl: "strlen co = 1" by (simp add: strlen_def)
  have g: "get_header_str sys p co (int n) = ([], Ret hdr)" and L: "L \<le> 5"
    unfolding hdr_def L_def by (rule header_digits [OF assms(1) sl room])+
  from co L assms(2) have len: "length hdr = 6"
    by (simp add: hdr_def L_def)
  from co assms(2) have tag: "[c_at hdr 0] = co"
    by (cases co) (auto simp: c_at_def hdr_def)
  from co assms(2) have "drop 1 hdr = replicate (5 - L) (CHR ''0'') @ dec_digits n"
    by (simp add: hdr_def)
  then have dec: "atoi (drop 1 hdr) = int n"
    by (simp only: atoi_zero_padded)
  have "NUL \<notin> set hdr"
    using assms(3) co dec_digits_chars [of NUL n] by (auto simp: hdr_def)
  with g len tag dec show ?thesis by blast
qed

lemma request_reply_complete:
  assumes "strlen out \<le> 99999" and "6 + strlen out \<le> k"
    and room: "\<And>m. 7 \<le> m + malloc_slack sys m"
  shows "\<exists>hdr. get_header_str sys p ''o'' (int (strlen out)) = ([], Ret hdr)
           \<and> length hdr = 6 \<and> c_at hdr 0 = CHR ''o'' \<and> atoi (drop 1 hdr) = int (strlen out)
           \<and> request_reply sys p cliex_sock serv_sock (WrOk k) (Some out)
                = ([SockWrite serv_sock (hdr @ c_str out), SockClose serv_sock], Ret ())"
proof -
  from header_fields [OF assms(1) _ _ room, of "''o''" p]
  obtain hdr where g: "get_header_str sys p ''o'' (int (strlen out)) = ([], Ret hdr)"
    and len: "length hdr = 6" and tag: "[c_at hdr 0] = ''o''"
    and dec: "atoi (drop 1 hdr) = int (strlen out)" and nn: "NUL \<notin> set hdr"
    by auto
  from nn have ch: "c_str hdr = hdr" by (rule c_str_no_NUL)
  from nn have cm: "c_str (hdr @ c_str out) = hdr @ c_str out" by (rule c_str_append)
  have lm: "length (hdr @ c_str out) = 6 + strlen out"
    using len by (simp add: strlen_def)
  from assms(1) have ti: "to_int (int (strlen out)) = int (strlen out)"
    by (intro to_int_small) (simp_all add: INT_MAX_def)
  from assms(1) have tm: "to_int (int (6 + strlen out)) = int (6 + strlen out)"
    by (intro to_int_small) (simp_all add: INT_MAX_def)
  have w: "sock_write (WrOk k) serv_sock (hdr @ c_str out)
             = ([SockWrite serv_sock (hdr @ c_str out)], int (6 + strlen out))"
    using assms(2) lm by (simp add: min_def)
  have "request_reply sys p cliex_sock serv_sock (WrOk k) (Some out)
          = ([SockWrite serv_sock (hdr @ c_str out), SockClose serv_sock], Ret ())"
    unfolding request_reply_def option.case ti g seq_def prod.case outcome.case Let_def ch cm w tm
    using lm by (simp add: strlen_def cm)
  with g len tag dec show ?thesis by auto
qed

lemma atoi_examples:
  "atoi ''00000'' = 0" "atoi ''00003'' = 3" "atoi ''00004'' = 4" "atoi ''00005'' = 5"
  by (simp_all add: atoi_def c_str_def isspace_def isdigit_def digit_val_def)

text \<open>
  Headers written with six digits, as \<^verbatim>\<open>c000005\<close> and \<^verbatim>\<open>i000003\<close>, are seven bytes long:
  the handler takes \<^verbatim>\<open>c00000\<close> for the first header and \<^verbatim>\<open>5i0000\<close> for the second, whose
  tag is not \<^verbatim>\<open>i\<close>, and exits without running the engine.
\<close>

lemma seven_byte_headers_are_misread:
  "request_iteration example_os example_child 3 4 ''/home/u'' [Seg ''c000005i000003xyzabcde''] (WrOk 100)
     = ([Printf (LF # ''Possible application or network error detected. Exiting application.'' @ [LF]),
         Kill 4711 SIGUSR1, SockClose 3],
        Exit 1)"
  by (simp add: request_iteration_def request_receive_def seq_def malloc_def c_at_def Let_def
        example_child_def)


text \<open>
  When the request arrives whole and well formed, the handler reads it in the order
  command header, input header, input, command. When the engine then returns a string of
  at most 99999 bytes, the allocator leaves the room and the \<^verbatim>\<open>write\<close> accepts the whole
  message, the reply is one frame: a header with tag \<^verbatim>\<open>o\<close> declaring the length of the
  result, followed by the result.
\<close>

lemma request_exchange_with_result:
  assumes "length hc = 6" and "c_at hc 0 = CHR ''c''" and "atoi (drop 1 hc) = int (length cb)"
    and "length hi = 6" and "c_at hi 0 = CHR ''i''" and "atoi (drop 1 hi) = int (length ib)"
    and "execute_on_current_node sys p cwd ib cb = (ev, Ret (cwd', Some out))"
    and "strlen out \<le> 99999" and "6 + strlen out \<le> k"
    and room: "\<And>m. 7 \<le> m + malloc_slack sys m"
  shows "request_receive sys p cliex_sock (Seg (hc @ hi @ ib @ cb) # q) = ([], Ret (ib, cb))
       \<and> (\<exists>hdr. length hdr = 6 \<and> c_at hdr 0 = CHR ''o'' \<and> atoi (drop 1 hdr) = int (strlen out)
              \<and> request_iteration sys p cliex_sock serv_sock cwd (Seg (hc @ hi @ ib @ cb) # q) (WrOk k)
                   = (ev @ [SockWrite serv_sock (hdr @ c_str out), SockClose serv_sock], Ret cwd'))"
proof -
  have rcv: "request_receive sys p cliex_sock (Seg (hc @ hi @ ib @ cb) # q) = ([], Ret (ib, cb))"
    using assms(1-6) by (rule request_receive_complete)
  from request_reply_complete [OF assms(8,9) room, of p cliex_sock serv_sock]
  obtain hdr where len: "length hdr = 6" and tag: "c_at hdr 0 = CHR ''o''"
    and dec: "atoi (drop 1 hdr) = int (strlen out)"
    and rep: "request_reply sys p cliex_sock serv_sock (WrOk k) (Some out)
                = ([SockWrite serv_sock (hdr @ c_str out), SockClose serv_sock], Ret ())"
    by blast
  have "request_iteration sys p cliex_sock serv_sock cwd (Seg (hc @ hi @ ib @ cb) # q) (WrOk k)
          = (ev @ [SockWrite serv_sock (hdr @ c_str out), SockClose serv_sock], Ret cwd')"
    by (simp add: request_iteration_def rcv assms(7) rep seq_def)
  with rcv len tag dec show ?thesis by blast
qed

lemma example_os_simps:
  "pipe_capacity example_os = 65536" "realloc_ok example_os n" "heap_garbage example_os i = NUL"
  "popen_result example_os cwd command stdin =
     (if command = ''cat'' then Some stdin
      else if command = ''pwd'' then Some (cwd @ [LF])
      else if command = ''cat frame.bin'' then Some [CHR ''a'', CHR ''b'', NUL, CHR ''c'', CHR ''d'']
      else Some [])"
  "chdir_result example_os cwd path = (if path = ''/tmp'' then Some ''/tmp'' else None)"
  "malloc_slack example_os n = 24 - n"
  by (simp_all add: example_os_def)

lemma malloc_example: "malloc example_os n = replicate n NUL"
proof -
  have "heap_garbage example_os = (\<lambda>i. NUL)"
    by (simp add: example_os_def)
  then show ?thesis
    by (simp add: malloc_def map_replicate_const)
qed

lemma cat_hello:
  "execute_on_current_node example_os example_child ''/home/u'' ''hello'' ''cat''
     = ([PipeWrite ''hello'', PipeClose, Dup2Stdin, Popen ''cat'', Pclose],
        Ret (''/home/u'', Some ''hello''))"
proof -
  have "read_output example_os example_child ''hello'' None 1 = ([], Ret (Some (c_str ''hello'')))"
    by (rule read_output_one_chunk) (simp_all add: example_os_def)
  then have ro: "read_output example_os example_child ''hello'' None 1 = ([], Ret (Some ''hello''))"
    by (simp add: c_str_def)
  show ?thesis
    unfolding execute_on_current_node_def cd_test_iff
    by (simp add: ro seq_def strlen_def c_str_def example_os_simps)
qed

text \<open>
  C2 fails on the code, on its own example read with headers of six bytes. The request
  \<^verbatim>\<open>c00005\<close>, \<^verbatim>\<open>i00003\<close>, \<^verbatim>\<open>xyz\<close>, \<^verbatim>\<open>abcde\<close> is read in that order and the engine is run on
  the input \<^verbatim>\<open>xyz\<close> and the command \<^verbatim>\<open>abcde\<close>. The command writes nothing to its standard
  output, the engine returns NULL, and the handler passes NULL to \<^verbatim>\<open>strlen\<close>: no output
  frame is written.
\<close>

theorem example_exchange_ends_in_strlen_of_null:
  "request_receive example_os example_child 3 [Seg ''c00005i00003xyzabcde'']
     = ([], Ret (''xyz'', ''abcde''))
   \<and> popen_result example_os ''/home/u'' ''abcde'' ''xyz'' = Some []
   \<and> request_iteration example_os example_child 3 4 ''/home/u'' [Seg ''c00005i00003xyzabcde''] (WrOk 100)
     = ([PipeWrite ''xyz'', PipeClose, Dup2Stdin, Popen ''abcde'', Pclose], Undefined)"
proof -
  have a: "length ''c00005'' = 6" "c_at ''c00005'' 0 = CHR ''c''" "atoi (drop 1 ''c00005'') = int (length ''abcde'')"
    and b: "length ''i00003'' = 6" "c_at ''i00003'' 0 = CHR ''i''" "atoi (drop 1 ''i00003'') = int (length ''xyz'')"
    by (simp_all add: c_at_def atoi_examples)
  have rcv: "request_receive example_os example_child 3 [Seg ''c00005i00003xyzabcde''] = ([], Ret (''xyz'', ''abcde''))"
    using request_receive_complete [OF a b, of example_os example_child 3 "[]"] by simp
  have po: "popen_result example_os ''/home/u'' ''abcde'' ''xyz'' = Some []"
    by (simp add: example_os_simps)
  have ex: "execute_on_current_node example_os example_child ''/home/u'' ''xyz'' ''abcde''
     = ([PipeWrite ''xyz'', PipeClose, Dup2Stdin, Popen ''abcde'', Pclose], Ret (''/home/u'', None))"
    unfolding execute_on_current_node_def cd_test_iff
    by (simp add: silent_stream seq_def strlen_def c_str_def example_os_simps)
  have "request_iteration example_os example_child 3 4 ''/home/u'' [Seg ''c00005i00003xyzabcde''] (WrOk 100)
     = ([PipeWrite ''xyz'', PipeClose, Dup2Stdin, Popen ''abcde'', Pclose], Undefined)"
    by (simp add: request_iteration_def rcv ex request_reply_def seq_def)
  with rcv po show ?thesis by simp
qed

text \<open>
  C6 fails on the code. A subprocess that writes nothing leaves \<^verbatim>\<open>output\<close> at NULL: the
  engine returns the NULL pointer, and the handler passes it to \<^verbatim>\<open>strlen\<close> instead of
  sending an output frame of length 0.
\<close>

theorem silent_subprocess_yields_null_pointer:
  "execute_on_current_node example_os example_child ''/home/u'' ''hello'' ''true''
     = ([PipeWrite ''hello'', PipeClose, Dup2Stdin, Popen ''true'', Pclose], Ret (''/home/u'', None))
   \<and> request_iteration example_os example_child 3 4 ''/home/u'' [Seg ''c00004i00005hellotrue''] (WrOk 100)
     = ([PipeWrite ''hello'', PipeClose, Dup2Stdin, Popen ''true'', Pclose], Undefined)"
proof -
  have a: "length ''c00004'' = 6" "c_at ''c00004'' 0 = CHR ''c''" "atoi (drop 1 ''c00004'') = int (length ''true'')"
    and b: "length ''i00005'' = 6" "c_at ''i00005'' 0 = CHR ''i''" "atoi (drop 1 ''i00005'') = int (length ''hello'')"
    by (simp_all add: c_at_def atoi_examples)
  have rcv: "request_receive example_os example_child 3 [Seg ''c00004i00005hellotrue''] = ([], Ret (''hello'', ''true''))"
    using request_receive_complete [OF a b, of example_os example_child 3 "[]"] by simp
  have ex: "execute_on_current_node example_os example_child ''/home/u'' ''hello'' ''true''
     = ([PipeWrite ''hello'', PipeClose, Dup2Stdin, Popen ''true'', Pclose], Ret (''/home/u'', None))"
    unfolding execute_on_current_node_def cd_test_iff
    by (simp add: silent_stream seq_def strlen_def c_str_def example_os_def)
  have "request_iteration example_os example_child 3 4 ''/home/u'' [Seg ''c00004i00005hellotrue''] (WrOk 100)
     = ([PipeWrite ''hello'', PipeClose, Dup2Stdin, Popen ''true'', Pclose], Undefined)"
    by (simp add: request_iteration_def rcv ex request_reply_def seq_def)
  with ex show ?thesis by simp
qed


section \<open>The command channel, one line\<close>

lemma header_too_long:
  assumes "100000 \<le> n"
  shows "get_header_str sys p co (int n)
           = ([Printf (''output is too long, exiting.'' @ [LF]),
               Kill (if getpid p = child_pid p then getppid p else child_pid p) SIGUSR1],
              Exit 1)"
proof -
  from assms have "10 ^ 5 \<le> n" by simp
  then have "5 < length (dec_digits n)" by (rule dec_digits_length_gt)
  moreover from assms have "num_length_loop (int n) 0 = int (length (dec_digits n))"
    by (simp add: num_length_loop_nat)
  ultimately show ?thesis
    using assms by (simp add: get_header_str_def HEADER_SIZE_def Let_def)
qed

text \<open>
  C4, as the code has it. For a payload whose length is at least 100000 and at most
  \<open>INT_MAX\<close>, the range of the \<^verbatim>\<open>int\<close> parameter of \<^verbatim>\<open>get_header_str\<close>, the function
  prints its message, signals the other process and exits with status 1. In both
  handlers this happens before \<^verbatim>\<open>write\<close> is called: the trace holds no socket write.
\<close>

theorem oversize_payload_is_rejected_before_any_write:
  assumes "100000 \<le> n" and "n \<le> 2147483647"
  shows "get_header_str sys p co (int n)
           = ([Printf (''output is too long, exiting.'' @ [LF]),
               Kill (if getpid p = child_pid p then getppid p else child_pid p) SIGUSR1],
              Exit 1)
       \<and> (strlen out = n \<longrightarrow>
            request_reply sys p cliex_sock serv_sock wr (Some out)
              = ([Printf (''output is too long, exiting.'' @ [LF]),
                  Kill (if getpid p = child_pid p then getppid p else child_pid p) SIGUSR1],
                 Exit 1))
       \<and> (length l = n + 1 \<longrightarrow> c_str (butlast l) \<noteq> ''exit'' \<longrightarrow>
            shell_iteration sys p serv_fd (Some l) wr c
              = ([Printf (LF # ''[shell]-> ''),
                  Printf (''output is too long, exiting.'' @ [LF]),
                  Kill (if getpid p = child_pid p then getppid p else child_pid p) SIGUSR1],
                 Exit 1))"
proof (intro conjI impI)
  from assms(2) have ti: "to_int (int n) = int n"
    by (intro to_int_small) (simp_all add: INT_MAX_def)
  show g: "get_header_str sys p co (int n)
           = ([Printf (''output is too long, exiting.'' @ [LF]),
               Kill (if getpid p = child_pid p then getppid p else child_pid p) SIGUSR1],
              Exit 1)" for co
    using assms(1) by (rule header_too_long)
  {
    assume "strlen out = n"
    then show "request_reply sys p cliex_sock serv_sock wr (Some out)
              = ([Printf (''output is too long, exiting.'' @ [LF]),
                  Kill (if getpid p = child_pid p then getppid p else child_pid p) SIGUSR1],
                 Exit 1)"
      by (simp add: request_reply_def ti g seq_def)
  }
  {
    assume len: "length l = n + 1" and ne: "c_str (butlast l) \<noteq> ''exit''"
    from len have tk: "take n l = butlast l"
      by (simp add: butlast_conv_take)
    from len assms(1) ne tk ti g [of "''c''"]
    show "shell_iteration sys p serv_fd (Some l) wr c
              = ([Printf (LF # ''[shell]-> ''),
                  Printf (''output is too long, exiting.'' @ [LF]),
                  Kill (if getpid p = child_pid p then getppid p else child_pid p) SIGUSR1],
                 Exit 1)"
      by (simp add: shell_iteration_def seq_def Let_def)
  }
qed

lemma c_str_replicate: "x \<noteq> NUL \<Longrightarrow> c_str (replicate n x) = replicate n x"
  by (simp add: c_str_def)

theorem oversize_payload_is_rejected_before_any_write_witness:
  "(100000::nat) \<le> 100000 \<and> (100000::nat) \<le> 2147483647
   \<and> strlen (replicate 100000 (CHR ''a'')) = 100000
   \<and> request_reply example_os example_child 3 4 (WrOk 200000) (Some (replicate 100000 (CHR ''a'')))
        = ([Printf (''output is too long, exiting.'' @ [LF]), Kill 0 SIGUSR1], Exit 1)
   \<and> shell_iteration example_os example_parent 5 (Some (replicate 100000 (CHR ''a'') @ [LF])) (WrOk 200000) []
        = ([Printf (LF # ''[shell]-> ''), Printf (''output is too long, exiting.'' @ [LF]),
            Kill 4712 SIGUSR1],
           Exit 1)"
proof -
  have h1: "(100000::nat) \<le> 100000" and h2: "(100000::nat) \<le> 2147483647"
    by simp_all
  have s: "strlen (replicate 100000 (CHR ''a'')) = 100000"
    by (simp add: strlen_def c_str_replicate)
  have l: "length (replicate 100000 (CHR ''a'') @ [LF]) = 100000 + 1"
    by simp
  have "length (c_str (butlast (replicate 100000 (CHR ''a'') @ [LF]))) \<noteq> length ''exit''"
    by (simp add: butlast_append c_str_replicate)
  then have ne: "c_str (butlast (replicate 100000 (CHR ''a'') @ [LF])) \<noteq> ''exit''"
    by metis
  from oversize_payload_is_rejected_before_any_write [OF h1 h2,
         where out = "replicate 100000 (CHR ''a'')" and p = example_child and cliex_sock = 3
           and serv_sock = 4 and wr = "WrOk 200000"]
       oversize_payload_is_rejected_before_any_write [OF h1 h2,
         where l = "replicate 100000 (CHR ''a'') @ [LF]" and p = example_parent and sys = example_os
           and serv_fd = 5 and wr = "WrOk 200000" and c = "[]"]
       s l ne
  show ?thesis
    by (simp add: example_child_def example_parent_def)
qed

text \<open>
  C4 as stated fails beyond the range of \<^verbatim>\<open>int\<close>: a line of \<open>2\<^sup>3\<^sup>2\<close> bytes has its length
  truncated to 0, the header is \<^verbatim>\<open>c00000\<close>, and the bytes the system accepts reach the
  wire.
\<close>

theorem four_gigabyte_line_counterexample:
  "length (replicate 4294967296 (CHR ''a'')) = 4294967296
   \<and> shell_iteration example_os example_parent 5
        (Some (replicate 4294967296 (CHR ''a'') @ [LF])) (WrOk 6) []
      = ([Printf (LF # ''[shell]-> ''), SockWrite 5 ''c00000'',
          Printf (LF # ''Unable to send the complete command to server. Possible network error. Exiting application.'' @ [LF]),
          Kill 4712 SIGUSR1],
         Exit 1)"
proof -
  define big where "big = replicate 4294967296 (CHR ''a'')"
  have len: "length big = 4294967296" by (simp add: big_def)
  have cs: "c_str big = big" by (simp add: big_def c_str_replicate)
  have tk: "take 4294967296 (big @ [LF]) = big" using len by simp
  have "length big \<noteq> length ''exit''" using len by simp
  then have ne: "big \<noteq> ''exit''" by metis
  have ti: "to_int 4294967296 = 0" "to_int 6 = 6" by (simp_all add: to_int_def)
  have z: "replicate 4 (CHR ''0'') = ''0000''"
    by (simp add: eval_nat_numeral)
  have hd: "get_header_str example_os example_parent ''c'' 0 = ([], Ret ''c00000'')"
    by (simp add: z get_header_str_def HEADER_SIZE_def Let_def printf_d_def c_str_def
          dec_digits_small digit_char_def example_os_simps)
  have ch: "c_str ''c00000'' = ''c00000''"
    by (simp add: c_str_def)
  have cp: "child_pid example_parent = 4712"
    by (simp add: example_parent_def)
  have cm: "c_str (CHR ''c'' # CHR ''0'' # CHR ''0'' # CHR ''0'' # CHR ''0'' # CHR ''0'' # big)
              = CHR ''c'' # CHR ''0'' # CHR ''0'' # CHR ''0'' # CHR ''0'' # CHR ''0'' # big"
    using cs by (simp add: c_str_def)
  have "shell_iteration example_os example_parent 5 (Some (big @ [LF])) (WrOk 6) []
      = ([Printf (LF # ''[shell]-> ''), SockWrite 5 ''c00000'',
          Printf (LF # ''Unable to send the complete command to server. Possible network error. Exiting application.'' @ [LF]),
          Kill 4712 SIGUSR1],
         Exit 1)"
    unfolding shell_iteration_def
    by (simp add: len tk cs ne ti hd seq_def Let_def ch cm strlen_def cp)
  with len show ?thesis by (simp only: big_def) 
qed

text \<open>
  C8. On the line \<^verbatim>\<open>exit\<close> the shell handler sends SIGUSR1 to the child and exits with
  status 1, whatever input would follow; its trace holds no socket write. The signal
  reaches the child, whose handler for it exits with status 1 and writes nothing.
\<close>

theorem exit_line_stops_both_contexts:
  "shell_iteration sys p serv_fd (Some (''exit'' @ [LF])) wr c
     = ([Printf (LF # ''[shell]-> ''), Printf (LF # ''EXITING SHELL...'' @ [LF, LF]),
         Kill (child_pid p) SIGUSR1],
        Exit 1)
   \<and> shell_handler sys p serv_fd ((Some (''exit'' @ [LF]), wr) # rest) c
     = ([Printf (LF # ''[shell]-> ''), Printf (LF # ''EXITING SHELL...'' @ [LF, LF]),
         Kill (child_pid p) SIGUSR1],
        Exit 1)
   \<and> \<not> list_ex is_sock_write
         (fst (shell_handler sys p serv_fd ((Some (''exit'' @ [LF]), wr) # rest) c))
   \<and> signals_for (child_pid p)
        (fst (shell_handler sys p serv_fd ((Some (''exit'' @ [LF]), wr) # rest) c)) = [SIGUSR1]
   \<and> sigusr1_handler signum = ([], Exit 1)"
proof -
  have it: "shell_iteration sys p serv_fd (Some (''exit'' @ [LF])) wr c
     = ([Printf (LF # ''[shell]-> ''), Printf (LF # ''EXITING SHELL...'' @ [LF, LF]),
         Kill (child_pid p) SIGUSR1],
        Exit 1)"
    by (simp add: shell_iteration_def seq_def Let_def c_str_def c_at_def)
  then show ?thesis
    by (simp add: seq_def signal_reaches_def sigusr1_handler_def)
qed

lemma shell_iteration_no_line:
  "line = None \<or> line = Some [] \<Longrightarrow>
     shell_iteration sys p serv_fd line wr c = ([Printf (LF # ''[shell]-> '')], Ret c)"
  by (auto simp: shell_iteration_def seq_def)

text \<open>
  C10. As long as \<^verbatim>\<open>getline\<close> returns a length that is not positive, the shell handler
  only prints its prompt, once per pass, however many passes there are: it sends no
  signal, writes nothing to the socket, leaves the connection as it is and stays in its
  loop. A failed read is handled exactly as a line that holds only a line feed.
\<close>

theorem failed_line_read_only_reprompts:
  assumes "\<forall>(line, wr) \<in> set script. line = None \<or> line = Some []"
  shows "shell_handler sys p serv_fd script c
           = (replicate (length script) (Printf (LF # ''[shell]-> '')), Ret c)
       \<and> shell_iteration sys p serv_fd None wr c = shell_iteration sys p serv_fd (Some [LF]) wr c"
proof
  from assms show "shell_handler sys p serv_fd script c
           = (replicate (length script) (Printf (LF # ''[shell]-> '')), Ret c)"
  proof (induction script)
    case Nil
    show ?case by simp
  next
    case (Cons a script)
    obtain line wr where a: "a = (line, wr)" by (cases a)
    with Cons.prems have "line = None \<or> line = Some []" by simp
    then have "shell_iteration sys p serv_fd line wr c = ([Printf (LF # ''[shell]-> '')], Ret c)"
      by (rule shell_iteration_no_line)
    moreover from Cons have "shell_handler sys p serv_fd script c
           = (replicate (length script) (Printf (LF # ''[shell]-> '')), Ret c)"
      by simp
    ultimately show ?case
      using a by (simp add: seq_def)
  qed
  show "shell_iteration sys p serv_fd None wr c = shell_iteration sys p serv_fd (Some [LF]) wr c"
    by (simp add: shell_iteration_def seq_def c_at_def)
qed

theorem failed_line_read_only_reprompts_witness:
  "shell_handler example_os example_parent 5 [(None, WrErr), (None, WrErr), (Some [], WrErr)] [Seg ''o00000'']
     = ([Printf (LF # ''[shell]-> ''), Printf (LF # ''[shell]-> ''), Printf (LF # ''[shell]-> '')],
        Ret [Seg ''o00000''])"
proof -
  have h: "\<forall>(line, wr) \<in> set [(None, WrErr), (None, WrErr), (Some [], WrErr)]. line = None \<or> line = Some []"
    by simp
  from failed_line_read_only_reprompts [OF h, of example_os example_parent 5 "[Seg ''o00000'']",
         THEN conjunct1]
  show ?thesis
    by (simp add: eval_nat_numeral)
qed

lemma shell_iteration_sends:
  assumes "l \<noteq> []" and "l \<noteq> [LF]" and "c_str (butlast l) \<noteq> ''exit''"
    and "length l \<le> 100000" and "6 + strlen (butlast l) \<le> k"
    and room: "\<And>m. 7 \<le> m + malloc_slack sys m"
  shows "\<exists>hdr. length hdr = 6 \<and> c_at hdr 0 = CHR ''c'' \<and> atoi (drop 1 hdr) = int (length l) - 1
           \<and> shell_iteration sys p serv_fd (Some l) (WrOk k) c
                = seq ([Printf (LF # ''[shell]-> ''),
                        SockWrite serv_fd (hdr @ c_str (butlast l)),
                        Printf (''Command sent to server: '' @ hdr @ c_str (butlast l)
                                @ ''. Waiting for response....'' @ [LF])],
                       Ret ())
                    (\<lambda>_. shell_receive sys p c)"
proof -
  define n where "n = length l - 1"
  from assms(1) have pos: "0 < length l" by simp
  from assms(4) have n: "n \<le> 99999" by (simp add: n_def)
  from header_fields [OF n _ _ room, of "''c''" p]
  obtain hdr where g: "get_header_str sys p ''c'' (int n) = ([], Ret hdr)"
    and len: "length hdr = 6" and tag: "[c_at hdr 0] = ''c''"
    and dec: "atoi (drop 1 hdr) = int n" and nn: "NUL \<notin> set hdr"
    by auto
  from pos have il: "int (length l) - 1 = int n"
    unfolding n_def by (cases l) simp_all
  from n have ti: "to_int (int n) = int n"
    by (intro to_int_small) (simp_all add: INT_MAX_def)
  have tk: "take n l = (butlast l)" by (simp add: n_def butlast_conv_take)
  have guard: "\<not> (int (length l) \<le> 0 \<or> (int (length l) = 1 \<and> c_at l 0 = LF))"
  proof -
    have "l = [LF]" if "length l = 1" and "c_at l 0 = LF"
      using that by (cases l) (auto simp: c_at_def)
    with assms(1,2) show ?thesis by auto
  qed
  from nn have ch: "c_str hdr = hdr" by (rule c_str_no_NUL)
  from nn have cm: "c_str (hdr @ c_str (butlast l)) = hdr @ c_str (butlast l)" by (rule c_str_append)
  have lm: "length (hdr @ c_str (butlast l)) = 6 + strlen (butlast l)"
    using len by (simp add: strlen_def)
  have "strlen (butlast l) \<le> length (butlast l)"
    unfolding strlen_def c_str_def by (rule length_takeWhile_le)
  also have "length (butlast l) = n" by (simp add: n_def)
  finally have "6 + strlen (butlast l) \<le> 100005" using n by simp
  then have tm: "to_int (int (6 + strlen (butlast l))) = int (6 + strlen (butlast l))"
    by (intro to_int_small) (simp_all add: INT_MAX_def)
  have nat6: "nat (6 + int m) = 6 + m" for m
    by simp
  have w: "sock_write (WrOk k) serv_fd (hdr @ c_str (butlast l))
             = ([SockWrite serv_fd (hdr @ c_str (butlast l))], int (6 + strlen (butlast l)))"
    using assms(5) lm by (simp add: min_def)
  have "shell_iteration sys p serv_fd (Some l) (WrOk k) c
          = seq ([Printf (LF # ''[shell]-> ''),
                  SockWrite serv_fd (hdr @ c_str (butlast l)),
                  Printf (''Command sent to server: '' @ hdr @ c_str (butlast l)
                          @ ''. Waiting for response....'' @ [LF])],
                 Ret ())
              (\<lambda>_. shell_receive sys p c)"
    unfolding shell_iteration_def Let_def option.case il nat_int tk ti
    using guard assms(3,5) len tm
    by (cases "shell_receive sys p c") (auto simp: seq_def g ch cm strlen_def min_def nat6)
  with len tag dec il show ?thesis
    by auto
qed





text \<open>
  C1 fails on the code. \<^verbatim>\<open>shell_handler\<close> takes the length for the header from \<^verbatim>\<open>getline\<close>
  and appends the payload with \<^verbatim>\<open>strcat\<close>: for the line \<^verbatim>\<open>a b NUL c d\<close> the frame on the wire
  is \<^verbatim>\<open>c00005ab\<close>, whose header decodes to the tag \<^verbatim>\<open>c\<close> and the length 5 and is followed by
  the 2 bytes \<^verbatim>\<open>ab\<close>. The header itself is written as 7 bytes into an allocation of
  \<open>num_length + 2\<close>: with an allocator that leaves no room, \<^verbatim>\<open>get_header_str\<close> is undefined
  here, as for every length below 10000.
\<close>

theorem embedded_NUL_line_declares_more_than_it_sends:
  "shell_iteration example_os example_parent 5
      (Some [CHR ''a'', CHR ''b'', NUL, CHR ''c'', CHR ''d'', LF]) (WrOk 100) [Seg ''o00000'']
     = ([Printf (LF # ''[shell]-> ''), SockWrite 5 ''c00005ab'',
         Printf (''Command sent to server: c00005ab. Waiting for response....'' @ [LF]),
         Printf [LF, LF]],
        Ret [])
   \<and> c_at ''c00005ab'' 0 = CHR ''c'' \<and> atoi (take 5 (drop 1 ''c00005ab'')) = 5
   \<and> drop 6 ''c00005ab'' = ''ab''
   \<and> get_header_str (example_os\<lparr>malloc_slack := (\<lambda>n. 0)\<rparr>) example_parent ''c'' 5
       = ([], Undefined)"
proof -
  have z: "replicate 4 (CHR ''0'') = ''0000''"
    by (simp add: eval_nat_numeral)
  have hd: "get_header_str example_os example_parent ''c'' 5 = ([], Ret ''c00005'')"
    by (simp add: z get_header_str_def HEADER_SIZE_def Let_def printf_d_def c_str_def dec_digits_small
          digit_char_def num_length_loop.simps [of 5] num_length_loop.simps [of 0] c_div_def
          example_os_simps)
  have ud: "get_header_str (example_os\<lparr>malloc_slack := (\<lambda>n. 0)\<rparr>) example_parent ''c'' 5
              = ([], Undefined)"
    by (simp add: z get_header_str_def HEADER_SIZE_def Let_def printf_d_def c_str_def dec_digits_small
          digit_char_def num_length_loop.simps [of 5] num_length_loop.simps [of 0] c_div_def)
  have rcv: "shell_receive example_os example_parent [Seg ''o00000''] = ([Printf [LF, LF]], Ret [])"
    by (simp add: shell_receive_def malloc_example c_at_def Let_def atoi_examples c_str_def)
  have "shell_iteration example_os example_parent 5
      (Some [CHR ''a'', CHR ''b'', NUL, CHR ''c'', CHR ''d'', LF]) (WrOk 100) [Seg ''o00000'']
     = ([Printf (LF # ''[shell]-> ''), SockWrite 5 ''c00005ab'',
         Printf (''Command sent to server: c00005ab. Waiting for response....'' @ [LF]),
         Printf [LF, LF]],
        Ret [])"
    unfolding shell_iteration_def
    by (simp add: c_str_def strlen_def c_at_def to_int_def hd rcv seq_def Let_def)
  moreover have "c_at ''c00005ab'' 0 = CHR ''c''" "atoi (take 5 (drop 1 ''c00005ab'')) = 5"
    "drop 6 ''c00005ab'' = ''ab''"
    by (simp_all add: c_at_def atoi_examples)
  ultimately show ?thesis
    using ud by (simp only: simp_thms)
qed

section \<open>Reads that fail and reads that come up short\<close>
















end
